theory Spec2Isabelle
  imports Complex_Main "HOL-Library.Word" "HOL-Library.AList"
begin

section \<open>Errors (\<^verbatim>\<open>src/HerLangCompiler/error_system.hpp\<close>, \<^verbatim>\<open>error_system.cpp\<close>)\<close>

text \<open>
  \<^verbatim>\<open>HerLangError\<close> is an exception class; a throwing function of the source returns
  \<open>Inl\<close> of the error value here. The builder methods \<^verbatim>\<open>with_suggestion\<close> and
  \<^verbatim>\<open>with_context\<close> update the object in place and return it.
\<close>

datatype Type = SyntaxError | TypeError | MemoryError | RuntimeError
  | UnexpectedToken | UndefinedFunction | InvalidArgument

record HerLangError =
  error_type :: Type
  message :: string
  context_str :: string
  line_number :: int
  suggestions :: "string list"
  help_url :: string

definition mk_HerLangError :: "Type \<Rightarrow> string \<Rightarrow> HerLangError" where
  "mk_HerLangError type msg =
     \<lparr>error_type = type, message = msg, context_str = [], line_number = - 1,
      suggestions = [], help_url = ''https://github.com/HerLang/docs/issues''\<rparr>"

definition with_context :: "string \<Rightarrow> HerLangError \<Rightarrow> HerLangError" where
  "with_context ctx e = e\<lparr>context_str := ctx\<rparr>"

definition with_suggestion :: "string \<Rightarrow> HerLangError \<Rightarrow> HerLangError" where
  "with_suggestion s e = e\<lparr>suggestions := suggestions e @ [s]\<rparr>"

section \<open>Guarded allocator (\<^verbatim>\<open>advanced_memory.hpp\<close>, the third part of \<^verbatim>\<open>src/HerLangCompiler/error_system.hpp\<close>)\<close>

text \<open>
  \<^verbatim>\<open>size_t\<close> and \<^verbatim>\<open>void*\<close> are 64-bit words (the source uses \<^verbatim>\<open>1ULL\<close> and
  \<^verbatim>\<open>std::aligned_alloc\<close>); \<open>+\<close> and \<open>*\<close> wrap around as unsigned arithmetic does in
  C++. The null pointer is the address 0. A \<^verbatim>\<open>steady_clock::time_point\<close> is a count of
  nanosecond ticks.
\<close>

type_synonym size_t = "64 word"
type_synonym address = "64 word"
type_synonym time_point = int

record SafeMemoryBlock =
  data_ptr :: address
  size_bytes :: size_t
  alignment :: size_t
  allocated_time :: time_point
  allocation_context :: string
  ref_count :: int
  is_protected :: bool

definition check_access :: "SafeMemoryBlock \<Rightarrow> size_t \<Rightarrow> size_t \<Rightarrow> bool" where
  "check_access b offset access_size \<longleftrightarrow> offset + access_size \<le> size_bytes b"

text \<open>
  A \<^verbatim>\<open>BoundaryGuardedPtr<T>\<close> holds the typed pointer and a shared pointer to the block
  (possibly null: \<open>None\<close>). The element type enters through \<open>sizeof_T\<close>, the value of
  \<^verbatim>\<open>sizeof(T)\<close>, and through the memory \<open>mem\<close>, which gives the \<^verbatim>\<open>T\<close> stored at a byte
  address; \<^verbatim>\<open>ptr[index]\<close> is the object at address \<open>ptr + index * sizeof(T)\<close>.
\<close>

record BoundaryGuardedPtr =
  ptr :: address
  block_info :: "SafeMemoryBlock option"

definition out_of_bounds_error :: HerLangError where
  "out_of_bounds_error =
     with_context ''Boundary-guarded pointer access''
       (with_suggestion ''Use safe_at() method for bounds-checked access''
         (with_suggestion ''Check array size before accessing''
           (mk_HerLangError MemoryError ''Array access out of bounds'')))"

definition access_ok :: "size_t \<Rightarrow> BoundaryGuardedPtr \<Rightarrow> size_t \<Rightarrow> bool" where
  "access_ok sizeof_T h index =
     (case block_info h of
        None \<Rightarrow> False
      | Some b \<Rightarrow> check_access b (index * sizeof_T) sizeof_T)"

definition subscript :: "size_t \<Rightarrow> (address \<Rightarrow> 'a) \<Rightarrow> BoundaryGuardedPtr \<Rightarrow> size_t
    \<Rightarrow> HerLangError + 'a" where
  "subscript sizeof_T mem h index =
     (if \<not> access_ok sizeof_T h index then Inl out_of_bounds_error
      else Inr (mem (ptr h + index * sizeof_T)))"

definition safe_at :: "size_t \<Rightarrow> (address \<Rightarrow> 'a) \<Rightarrow> BoundaryGuardedPtr \<Rightarrow> size_t
    \<Rightarrow> 'a option" where
  "safe_at sizeof_T mem h index =
     (if \<not> access_ok sizeof_T h index then None
      else Some (mem (ptr h + index * sizeof_T)))"

definition size_elems :: "size_t \<Rightarrow> BoundaryGuardedPtr \<Rightarrow> size_t" where
  "size_elems sizeof_T h =
     (case block_info h of None \<Rightarrow> 0 | Some b \<Rightarrow> size_bytes b div sizeof_T)"

text \<open>
  The manager's \<^verbatim>\<open>unordered_map\<close> from addresses to blocks is an association list with
  at most one entry per key: \<^verbatim>\<open>protected_blocks[raw_ptr] = block\<close> is \<open>AList.update\<close>,
  \<^verbatim>\<open>erase\<close> is \<open>AList.delete\<close>, \<^verbatim>\<open>find\<close> is \<open>map_of\<close>.
\<close>

record AdvancedMemoryManager =
  protected_blocks :: "(address \<times> SafeMemoryBlock) list"

definition MAX_ALLOCATION :: size_t where
  "MAX_ALLOCATION = 1 * 1024 * 1024 * 1024"

text \<open>\<^verbatim>\<open>alignof(std::max_align_t)\<close> is 16 on the 64-bit platforms the word size stands for.\<close>

definition ALIGNMENT :: size_t where
  "ALIGNMENT = 16"

definition new_manager :: AdvancedMemoryManager where
  "new_manager = \<lparr>protected_blocks = []\<rparr>"

definition limit_error :: HerLangError where
  "limit_error =
     with_context ''Memory allocation safety check''
       (with_suggestion ''Use streaming or chunked processing''
         (with_suggestion ''Reduce allocation size''
           (mk_HerLangError MemoryError ''Allocation size exceeds safety limit'')))"

definition alloc_failed_error :: HerLangError where
  "alloc_failed_error =
     with_context ''Memory allocation''
       (with_suggestion ''Check system memory availability''
         (with_suggestion ''Reduce memory usage''
           (mk_HerLangError MemoryError ''Memory allocation failed'')))"

text \<open>
  \<^verbatim>\<open>allocate<T>(count, context)\<close>. The result of \<^verbatim>\<open>std::aligned_alloc\<close> is the argument
  \<open>raw_ptr\<close> (0 when the allocation fails), the clock reading is \<open>now\<close>. A throw leaves the
  manager as it was.
\<close>

definition allocate :: "size_t \<Rightarrow> size_t \<Rightarrow> string \<Rightarrow> time_point \<Rightarrow> address
    \<Rightarrow> AdvancedMemoryManager \<Rightarrow> HerLangError + (BoundaryGuardedPtr \<times> AdvancedMemoryManager)" where
  "allocate sizeof_T count ctx now raw_ptr m =
     (let total_size = count * sizeof_T in
      if total_size > MAX_ALLOCATION then Inl limit_error
      else if raw_ptr = 0 then Inl alloc_failed_error
      else
        let block = \<lparr>data_ptr = raw_ptr, size_bytes = total_size, alignment = ALIGNMENT,
                     allocated_time = now, allocation_context = ctx, ref_count = 1,
                     is_protected = True\<rparr>
        in Inr (\<lparr>ptr = raw_ptr, block_info = Some block\<rparr>,
                m\<lparr>protected_blocks := AList.update raw_ptr block (protected_blocks m)\<rparr>))"

definition deallocate :: "address \<Rightarrow> AdvancedMemoryManager \<Rightarrow> AdvancedMemoryManager" where
  "deallocate p m =
     (case map_of (protected_blocks m) p of
        Some b \<Rightarrow> m\<lparr>protected_blocks := AList.delete p (protected_blocks m)\<rparr>
      | None \<Rightarrow> m)"

definition get_block_info :: "address \<Rightarrow> AdvancedMemoryManager \<Rightarrow> SafeMemoryBlock option" where
  "get_block_info p m = map_of (protected_blocks m) p"

record MemoryStats =
  total_allocated :: size_t
  block_count :: size_t
  largest_block :: size_t
  oldest_allocation :: int

text \<open>\<^verbatim>\<open>duration_cast<milliseconds>\<close> of a tick count truncates towards zero.\<close>

definition to_milliseconds :: "int \<Rightarrow> int" where
  "to_milliseconds d = sgn d * (\<bar>d\<bar> div 1000000)"

text \<open>The range-for loop of \<^verbatim>\<open>get_stats\<close>, one entry of the registry per step.\<close>

fun stats_loop :: "time_point \<Rightarrow> (address \<times> SafeMemoryBlock) list \<Rightarrow> MemoryStats \<Rightarrow> MemoryStats" where
  "stats_loop now [] stats = stats"
| "stats_loop now ((p, block) # rest) stats =
     stats_loop now rest
       (stats\<lparr>total_allocated := total_allocated stats + size_bytes block,
              largest_block := max (largest_block stats) (size_bytes block),
              oldest_allocation :=
                max (oldest_allocation stats) (to_milliseconds (now - allocated_time block))\<rparr>)"

definition get_stats :: "time_point \<Rightarrow> AdvancedMemoryManager \<Rightarrow> MemoryStats" where
  "get_stats now m =
     stats_loop now (protected_blocks m)
       \<lparr>total_allocated = 0, block_count = of_nat (length (protected_blocks m)),
        largest_block = 0, oldest_allocation = 0\<rparr>"

subsection \<open>Sequences of allocator calls\<close>

text \<open>
  A client's calls on the manager, in order. A call of \<^verbatim>\<open>allocate\<close> that throws leaves the
  registry untouched and the client goes on (it catches the error).
\<close>

datatype mem_op =
    Allocate size_t size_t string time_point address
  | Deallocate address

fun apply_mem_op :: "mem_op \<Rightarrow> AdvancedMemoryManager \<Rightarrow> AdvancedMemoryManager" where
  "apply_mem_op (Allocate sizeof_T count ctx now raw_ptr) m =
     (case allocate sizeof_T count ctx now raw_ptr m of
        Inl e \<Rightarrow> m
      | Inr (h, m') \<Rightarrow> m')"
| "apply_mem_op (Deallocate p) m = deallocate p m"

fun run_mem_ops :: "mem_op list \<Rightarrow> AdvancedMemoryManager \<Rightarrow> AdvancedMemoryManager" where
  "run_mem_ops [] m = m"
| "run_mem_ops (op # ops) m = run_mem_ops ops (apply_mem_op op m)"

text \<open>
  What \<^verbatim>\<open>std::aligned_alloc\<close> promises about the pointer it returns: null, or the start of
  \<open>n\<close> bytes that lie inside the address space, at an address no live block has, and
  that share no byte with a live block. The live blocks are the registered ones:
  only \<^verbatim>\<open>deallocate\<close> frees, and it erases what it frees.
\<close>

definition apart :: "address \<Rightarrow> size_t \<Rightarrow> address \<Rightarrow> size_t \<Rightarrow> bool" where
  "apart p n q k \<longleftrightarrow>
     n = 0 \<or> k = 0 \<or> unat p + unat n \<le> unat q \<or> unat q + unat k \<le> unat p"

definition returned_fresh :: "address \<Rightarrow> size_t \<Rightarrow> (address \<times> SafeMemoryBlock) list \<Rightarrow> bool" where
  "returned_fresh raw n reg \<longleftrightarrow>
     raw = 0 \<or>
     (unat raw + unat n \<le> 2 ^ 64 \<and>
      list_all (\<lambda>(p, b). p \<noteq> raw \<and> apart raw n p (size_bytes b)) reg)"

fun op_respects_heap :: "mem_op \<Rightarrow> AdvancedMemoryManager \<Rightarrow> bool" where
  "op_respects_heap (Allocate sizeof_T count ctx now raw_ptr) m =
     (count * sizeof_T > MAX_ALLOCATION \<or>
      returned_fresh raw_ptr (count * sizeof_T) (protected_blocks m))"
| "op_respects_heap (Deallocate p) m = True"

fun allocator_contract :: "mem_op list \<Rightarrow> AdvancedMemoryManager \<Rightarrow> bool" where
  "allocator_contract [] m = True"
| "allocator_contract (op # ops) m =
     (op_respects_heap op m \<and> allocator_contract ops (apply_mem_op op m))"

text \<open>Invariants of the registry, used in the proofs below.\<close>

definition registry_ok :: "(address \<times> SafeMemoryBlock) list \<Rightarrow> bool" where
  "registry_ok reg \<longleftrightarrow> distinct (map fst reg) \<and> 0 \<notin> fst ` set reg"

definition region :: "address \<times> SafeMemoryBlock \<Rightarrow> nat set" where
  "region e = {unat (fst e) ..< unat (fst e) + unat (size_bytes (snd e))}"

definition heap_inv :: "(address \<times> SafeMemoryBlock) list \<Rightarrow> bool" where
  "heap_inv reg \<longleftrightarrow>
     registry_ok reg \<and>
     (\<forall>e\<in>set reg. unat (fst e) + unat (size_bytes (snd e)) \<le> 2 ^ 64) \<and>
     (\<forall>e\<in>set reg. \<forall>e'\<in>set reg. e \<noteq> e' \<longrightarrow> region e \<inter> region e' = {})"

section \<open>Background reclaimer (\<^verbatim>\<open>GentleGarbageCollector\<close>, same file)\<close>

definition MAX_CLEANUP_PER_CYCLE :: size_t where
  "MAX_CLEANUP_PER_CYCLE = 10"

text \<open>
  \<^verbatim>\<open>perform_incremental_cleanup\<close> reads the statistics, computes its budget
  \<open>max_cleanup\<close> and sleeps; the manager is reached only through \<^verbatim>\<open>get_stats\<close>. The
  model returns the budget together with the manager the cycle leaves behind.
\<close>

definition perform_incremental_cleanup :: "time_point \<Rightarrow> AdvancedMemoryManager
    \<Rightarrow> size_t \<times> AdvancedMemoryManager" where
  "perform_incremental_cleanup now m =
     (let stats = get_stats now m;
          max_cleanup = (if total_allocated stats > 100 * 1024 * 1024
                         then MAX_CLEANUP_PER_CYCLE * 2 else MAX_CLEANUP_PER_CYCLE)
      in (max_cleanup, m))"


definition MAX_SYSTEM_LOAD :: real where
  "MAX_SYSTEM_LOAD = 7 / 10"

text \<open>
  One turn of \<^verbatim>\<open>gc_loop\<close> after its wait, while \<^verbatim>\<open>should_run\<close> holds: the cleanup runs
  only under low load (\<^verbatim>\<open>system_load\<close> is a \<^verbatim>\<open>float\<close>, a real number here).
\<close>

definition gc_cycle :: "real \<Rightarrow> time_point \<Rightarrow> AdvancedMemoryManager \<Rightarrow> AdvancedMemoryManager" where
  "gc_cycle system_load now m =
     (if system_load < MAX_SYSTEM_LOAD then snd (perform_incremental_cleanup now m) else m)"

section \<open>Stress-aware worker pool (\<^verbatim>\<open>src/HerLangCompiler/cooperative_threading.hpp\<close>)\<close>

text \<open>
  \<^verbatim>\<open>consecutive_tasks\<close> is a \<^verbatim>\<open>std::atomic<int>\<close>: a 32-bit word read as two's
  complement. \<^verbatim>\<open>stress_level\<close> is a \<^verbatim>\<open>float\<close>; it is a real number here, and the
  thresholds \<^verbatim>\<open>0.8f\<close> and \<^verbatim>\<open>0.6f\<close> are 8/10 and 6/10. The properties below rest on
  the comparisons of the source only, not on how a sum or product of floats is rounded.
  Durations are tick counts of the steady clock (nanoseconds); every function that reads
  the clock takes the reading as its argument \<open>now\<close>.
\<close>

record WellnessMetrics =
  last_break :: time_point
  consecutive_tasks :: "32 word"
  stress_level :: real
  start_time :: time_point
  total_tasks_completed :: size_t

definition hours :: "int \<Rightarrow> int" where
  "hours h = h * 3600000000000"

definition minutes :: "int \<Rightarrow> int" where
  "minutes n = n * 60000000000"

definition MAX_CONSECUTIVE_TASKS :: int where
  "MAX_CONSECUTIVE_TASKS = 50"

definition MAX_WORK_DURATION :: int where
  "MAX_WORK_DURATION = hours 2"

definition MAX_STRESS_LEVEL :: real where
  "MAX_STRESS_LEVEL = 8 / 10"

definition BREAK_DURATION :: int where
  "BREAK_DURATION = minutes 15"

definition new_metrics :: "time_point \<Rightarrow> WellnessMetrics" where
  "new_metrics now =
     \<lparr>last_break = now, consecutive_tasks = 0, stress_level = 0, start_time = now,
      total_tasks_completed = 0\<rparr>"

definition needs_mandatory_break :: "time_point \<Rightarrow> WellnessMetrics \<Rightarrow> bool" where
  "needs_mandatory_break now metrics \<longleftrightarrow>
     (let work_duration = now - last_break metrics in
      sint (consecutive_tasks metrics) \<ge> MAX_CONSECUTIVE_TASKS \<or>
      work_duration \<ge> MAX_WORK_DURATION \<or>
      stress_level metrics \<ge> MAX_STRESS_LEVEL)"

text \<open>
  \<^verbatim>\<open>take_wellness_break\<close> sleeps for \<^verbatim>\<open>BREAK_DURATION\<close> and stamps the clock reading it
  takes after the sleep, \<open>woke\<close>.
\<close>

definition take_wellness_break :: "time_point \<Rightarrow> WellnessMetrics \<Rightarrow> WellnessMetrics" where
  "take_wellness_break woke metrics =
     metrics\<lparr>stress_level := stress_level metrics * (5 / 10),
             consecutive_tasks := 0,
             last_break := woke\<rparr>"

definition record_task_completion :: "time_point \<Rightarrow> WellnessMetrics \<Rightarrow> WellnessMetrics" where
  "record_task_completion now metrics =
     (let m1 = metrics\<lparr>consecutive_tasks := consecutive_tasks metrics + 1,
                       total_tasks_completed := total_tasks_completed metrics + 1\<rparr>;
          time_since_last = now - last_break m1
      in if time_since_last < minutes 1
         then m1\<lparr>stress_level := min 1 (stress_level m1 + 1 / 10)\<rparr>
         else m1\<lparr>stress_level := max 0 (stress_level m1 - 5 / 100)\<rparr>)"

text \<open>
  What a worker's queue holds: a submitted task (a closure, of any type \<open>'t\<close> here), or
  the rest that \<^verbatim>\<open>force_wellness_break\<close> enqueues.
\<close>

datatype 't queued = Task 't | WellnessBreak

record 't CooperativeWorker =
  task_queue :: "'t queued list"
  should_stop :: bool
  wellness :: WellnessMetrics
  worker_id :: size_t

definition new_worker :: "time_point \<Rightarrow> size_t \<Rightarrow> 't CooperativeWorker" where
  "new_worker now i =
     \<lparr>task_queue = [], should_stop = False, wellness = new_metrics now, worker_id = i\<rparr>"

definition try_assign_task :: "time_point \<Rightarrow> 't \<Rightarrow> 't CooperativeWorker
    \<Rightarrow> bool \<times> 't CooperativeWorker" where
  "try_assign_task now task w =
     (if needs_mandatory_break now (wellness w) then (False, w)
      else (True, w\<lparr>task_queue := task_queue w @ [Task task]\<rparr>))"

definition force_wellness_break :: "'t CooperativeWorker \<Rightarrow> 't CooperativeWorker" where
  "force_wellness_break w = w\<lparr>task_queue := task_queue w @ [WellnessBreak]\<rparr>"

definition get_stress_level :: "'t CooperativeWorker \<Rightarrow> real" where
  "get_stress_level w = stress_level (wellness w)"

text \<open>The worker's own clock events between two rests: the completions it records.\<close>

fun complete_tasks :: "time_point list \<Rightarrow> 't CooperativeWorker \<Rightarrow> 't CooperativeWorker" where
  "complete_tasks [] w = w"
| "complete_tasks (now # rest) w =
     complete_tasks rest (w\<lparr>wellness := record_task_completion now (wellness w)\<rparr>)"

record 't CooperativeThreadPool =
  workers :: "'t CooperativeWorker list"
  round_robin_counter :: size_t

definition STRESS_THRESHOLD :: real where
  "STRESS_THRESHOLD = 6 / 10"

definition all_overwhelmed_error :: HerLangError where
  "all_overwhelmed_error =
     with_context ''Thread pool task submission''
       (with_suggestion ''Wait for workers to complete their wellness breaks''
         (with_suggestion ''Reduce task submission rate''
           (mk_HerLangError RuntimeError ''All workers are overwhelmed and need rest'')))"

definition not_assigned_error :: HerLangError where
  "not_assigned_error =
     with_context ''Worker wellness protection''
       (with_suggestion ''Retry after a short delay''
         (mk_HerLangError RuntimeError ''Could not assign task - worker needs wellness break''))"

text \<open>
  The search loop of \<^verbatim>\<open>find_optimal_worker\<close>: \<open>i\<close> is the position of the worker at the
  head of the list, the pair is \<^verbatim>\<open>best_worker\<close> (a position, \<open>None\<close> for null) and
  \<^verbatim>\<open>lowest_stress\<close>.
\<close>

fun lowest_stress_loop :: "'t CooperativeWorker list \<Rightarrow> nat \<Rightarrow> nat option \<times> real
    \<Rightarrow> nat option \<times> real" where
  "lowest_stress_loop [] i acc = acc"
| "lowest_stress_loop (w # ws) i (best_worker, lowest_stress) =
     (let stress = get_stress_level w in
      if stress < lowest_stress \<and> stress < STRESS_THRESHOLD
      then lowest_stress_loop ws (i + 1) (Some i, stress)
      else lowest_stress_loop ws (i + 1) (best_worker, lowest_stress))"

definition find_optimal_worker :: "'t CooperativeThreadPool
    \<Rightarrow> nat option \<times> 't CooperativeThreadPool" where
  "find_optimal_worker pool =
     (case fst (lowest_stress_loop (workers pool) 0 (None, 1)) of
        Some i \<Rightarrow> (Some i, pool)
      | None \<Rightarrow>
          if workers pool \<noteq> []
          then (Some (unat (round_robin_counter pool) mod length (workers pool)),
                pool\<lparr>round_robin_counter := round_robin_counter pool + 1\<rparr>)
          else (None, pool))"

text \<open>
  \<^verbatim>\<open>submit_with_care\<close>: the future it returns is \<open>Inr ()\<close>, a throw is \<open>Inl\<close>; the pool it
  leaves behind comes with either (the round-robin counter moves before a throw).
\<close>

definition submit_with_care :: "time_point \<Rightarrow> 't \<Rightarrow> 't CooperativeThreadPool
    \<Rightarrow> (HerLangError + unit) \<times> 't CooperativeThreadPool" where
  "submit_with_care now task pool =
     (case find_optimal_worker pool of
        (None, pool') \<Rightarrow> (Inl all_overwhelmed_error, pool')
      | (Some i, pool') \<Rightarrow>
          (case try_assign_task now task (workers pool' ! i) of
             (False, w') \<Rightarrow> (Inl not_assigned_error, pool')
           | (True, w') \<Rightarrow> (Inr (), pool'\<lparr>workers := (workers pool')[i := w']\<rparr>)))"

section \<open>Protected shared cell (\<^verbatim>\<open>shared_state.hpp\<close>, \<^verbatim>\<open>src/unnamed/part_002\<close>)\<close>

text \<open>
  The counters are \<^verbatim>\<open>std::atomic<size_t>\<close>. A reader function returns \<open>Inr\<close> of its
  result or \<open>Inl\<close> of the exception it throws; a writer function also gives the value it
  leaves in \<^verbatim>\<open>data\<close>. The calls are modelled one at a time: a writer holds the
  exclusive lock, and the readers touch nothing but the atomic counter.
\<close>

record 'a ProtectedSharedState =
  data :: 'a
  state_name :: string
  read_count :: size_t
  write_count :: size_t
  creation_time :: time_point

definition new_state :: "'a \<Rightarrow> string \<Rightarrow> time_point \<Rightarrow> 'a ProtectedSharedState" where
  "new_state initial_data name now =
     \<lparr>data = initial_data, state_name = name, read_count = 0, write_count = 0,
      creation_time = now\<rparr>"

definition safe_read :: "('a \<Rightarrow> 'e + 'r) \<Rightarrow> 'a ProtectedSharedState
    \<Rightarrow> ('e + 'r) \<times> 'a ProtectedSharedState" where
  "safe_read reader s =
     (let s1 = s\<lparr>read_count := read_count s + 1\<rparr> in
      case reader (data s1) of
        Inr r \<Rightarrow> (Inr r, s1)
      | Inl e \<Rightarrow> (Inl e, s1\<lparr>read_count := read_count s1 - 1\<rparr>))"

definition safe_write :: "('a \<Rightarrow> ('e + 'r) \<times> 'a) \<Rightarrow> 'a ProtectedSharedState
    \<Rightarrow> ('e + 'r) \<times> 'a ProtectedSharedState" where
  "safe_write writer s =
     (let s1 = s\<lparr>write_count := write_count s + 1\<rparr>;
          (outcome, d) = writer (data s1);
          s2 = s1\<lparr>data := d\<rparr>
      in case outcome of
           Inr result \<Rightarrow> (Inr result, s2\<lparr>write_count := write_count s2 - 1\<rparr>)
         | Inl e \<Rightarrow> (Inl e, s2\<lparr>write_count := write_count s2 - 1\<rparr>))"

text \<open>A client's reads of one cell, one after the other.\<close>

fun run_reads :: "('a \<Rightarrow> 'e + 'r) list \<Rightarrow> 'a ProtectedSharedState \<Rightarrow> 'a ProtectedSharedState" where
  "run_reads [] s = s"
| "run_reads (reader # rest) s = run_reads rest (snd (safe_read reader s))"

text \<open>
  Modelled from the spec: \<^verbatim>\<open>T\<close>'s \<^verbatim>\<open>operator==\<close>, which \<^verbatim>\<open>optimistic_update\<close> uses and
  the element type has to bring along (\<^verbatim>\<open>T\<close> is a template parameter). The spec has the
  commit compare by ``value equality, not identity''.
\<close>

definition value_equal :: "'a \<Rightarrow> 'a \<Rightarrow> bool" where
  "value_equal x y \<longleftrightarrow> x = y"

text \<open>
  \<^verbatim>\<open>optimistic_update\<close>. Between the copy taken under the shared lock and the commit
  under the exclusive lock no lock is held: what the other threads do to the cell there,
  in attempt \<open>k\<close>, is \<open>env k\<close>.
\<close>

function optimistic_loop :: "(int \<Rightarrow> 'a ProtectedSharedState \<Rightarrow> 'a ProtectedSharedState)
    \<Rightarrow> ('a \<Rightarrow> 'a) \<Rightarrow> int \<Rightarrow> int \<Rightarrow> 'a ProtectedSharedState
    \<Rightarrow> bool \<times> 'a ProtectedSharedState" where
  "optimistic_loop env updater max_retries attempt s =
     (if attempt < max_retries then
        (let local_copy = data s;
             updated = updater local_copy;
             s' = env attempt s
         in if value_equal (data s') local_copy
            then (True, s'\<lparr>data := updated, write_count := write_count s' + 1\<rparr>)
            else optimistic_loop env updater max_retries (attempt + 1) s')
      else (False, s))"
  by pat_completeness auto
termination
  by (relation "measure (\<lambda>(env, updater, max_retries, attempt, s). nat (max_retries - attempt))") auto

declare optimistic_loop.simps [simp del]

definition optimistic_update :: "(int \<Rightarrow> 'a ProtectedSharedState \<Rightarrow> 'a ProtectedSharedState)
    \<Rightarrow> ('a \<Rightarrow> 'a) \<Rightarrow> int \<Rightarrow> 'a ProtectedSharedState \<Rightarrow> bool \<times> 'a ProtectedSharedState" where
  "optimistic_update env updater max_retries s = optimistic_loop env updater max_retries 0 s"

definition default_max_retries :: int where
  "default_max_retries = 3"

record AccessStats =
  name :: string
  total_reads :: size_t
  total_writes :: size_t
  lifetime :: int
  current_readers :: size_t

definition get_access_stats :: "time_point \<Rightarrow> 'a ProtectedSharedState \<Rightarrow> AccessStats" where
  "get_access_stats now s =
     \<lparr>name = state_name s, total_reads = read_count s, total_writes = write_count s,
      lifetime = to_milliseconds (now - creation_time s), current_readers = 0\<rparr>"

section \<open>Lock-order registry (\<^verbatim>\<open>DeadlockPrevention\<close>, \<^verbatim>\<open>src/unnamed/part_002\<close>)\<close>

text \<open>
  The three \<^verbatim>\<open>std::map\<close>s are partial functions; the calling thread
  (\<^verbatim>\<open>std::this_thread::get_id()\<close>) is the argument \<open>tid\<close>.
\<close>

type_synonym thread_id = nat

record LockInfo =
  lock_name :: string
  owner :: thread_id
  acquired_time :: time_point

record DeadlockPrevention =
  held_locks :: "thread_id \<rightharpoonup> string list"
  lock_registry :: "string \<rightharpoonup> LockInfo"
  lock_hierarchy :: "string \<rightharpoonup> int"
  next_hierarchy_level :: int

definition new_prevention :: DeadlockPrevention where
  "new_prevention =
     \<lparr>held_locks = Map.empty, lock_registry = Map.empty, lock_hierarchy = Map.empty,
      next_hierarchy_level = 0\<rparr>"

definition register_lock_type :: "string \<Rightarrow> DeadlockPrevention \<Rightarrow> DeadlockPrevention" where
  "register_lock_type nm s =
     (if lock_hierarchy s nm = None
      then s\<lparr>lock_hierarchy := (lock_hierarchy s)(nm \<mapsto> next_hierarchy_level s),
             next_hierarchy_level := next_hierarchy_level s + 1\<rparr>
      else s)"

definition would_create_cycle :: "thread_id \<Rightarrow> string \<Rightarrow> DeadlockPrevention \<Rightarrow> bool" where
  "would_create_cycle tid target_lock s =
     (case lock_registry s target_lock of
        None \<Rightarrow> False
      | Some info \<Rightarrow>
          if owner info \<noteq> tid then
            (case held_locks s (owner info) of
               None \<Rightarrow> False
             | Some other_locks \<Rightarrow>
                 (case held_locks s tid of
                    None \<Rightarrow> False
                  | Some our_locks \<Rightarrow>
                      list_ex (\<lambda>our_lock. list_ex (\<lambda>other_lock. our_lock = other_lock) other_locks)
                        our_locks))
          else False)"

text \<open>
  \<^verbatim>\<open>can_acquire_safely\<close> holds \<^verbatim>\<open>registry_mutex\<close> from its first line on, through a
  \<^verbatim>\<open>std::lock_guard\<close>. For a name that is not yet in the hierarchy it calls
  \<^verbatim>\<open>register_lock_type\<close>, whose first line locks the same mutex again on the same
  thread. A \<^verbatim>\<open>std::mutex\<close> is not recursive: the second lock has no defined behaviour and
  blocks for ever on the usual implementations, so the call never gets to its
  \<^verbatim>\<open>return true\<close>, and the result is \<open>None\<close>. For a known name the result is the
  answer with the registry, which the function does not change.
\<close>

definition can_acquire_safely :: "thread_id \<Rightarrow> string \<Rightarrow> DeadlockPrevention
    \<Rightarrow> (bool \<times> DeadlockPrevention) option" where
  "can_acquire_safely tid nm s =
     (case lock_hierarchy s nm of
        None \<Rightarrow> None
      | Some target_level \<Rightarrow>
          if (case held_locks s tid of
                None \<Rightarrow> False
              | Some held \<Rightarrow>
                  list_ex (\<lambda>held_lock.
                      case lock_hierarchy s held_lock of
                        None \<Rightarrow> False
                      | Some level \<Rightarrow> level > target_level) held)
          then Some (False, s)
          else Some (\<not> would_create_cycle tid nm s, s))"

definition register_lock_acquisition :: "thread_id \<Rightarrow> string \<Rightarrow> time_point
    \<Rightarrow> DeadlockPrevention \<Rightarrow> DeadlockPrevention" where
  "register_lock_acquisition tid nm now s =
     s\<lparr>held_locks := (held_locks s)(tid \<mapsto>
          (case held_locks s tid of None \<Rightarrow> [] | Some held \<Rightarrow> held) @ [nm]),
       lock_registry := (lock_registry s)(nm \<mapsto>
          \<lparr>lock_name = nm, owner = tid, acquired_time = now\<rparr>)\<rparr>"

definition register_lock_release :: "thread_id \<Rightarrow> string \<Rightarrow> DeadlockPrevention
    \<Rightarrow> DeadlockPrevention" where
  "register_lock_release tid nm s =
     s\<lparr>held_locks := (held_locks s)(tid \<mapsto>
          removeAll nm (case held_locks s tid of None \<Rightarrow> [] | Some held \<Rightarrow> held)),
       lock_registry := (lock_registry s)(nm := None)\<rparr>"

text \<open>Everything from here on is proved of the definitions above.\<close>

section \<open>Properties of guarded access\<close>

lemma no_wrap_offset:
  fixes index sizeof_T :: size_t
  assumes "unat index * unat sizeof_T + unat sizeof_T < 2 ^ 64"
  shows "unat (index * sizeof_T + sizeof_T) = unat index * unat sizeof_T + unat sizeof_T"
proof -
  have "unat index * unat sizeof_T < 2 ^ 64" using assms by simp
  then have m: "unat (index * sizeof_T) = unat index * unat sizeof_T"
    by (simp add: unat_mult_lem[THEN iffD1])
  with assms show ?thesis
    by (simp add: unat_add_lem[THEN iffD1])
qed

lemma access_ok_no_wrap:
  assumes b: "block_info h = Some b" and nz: "sizeof_T \<noteq> 0"
    and nw: "unat index * unat sizeof_T + unat sizeof_T < 2 ^ 64"
  shows "access_ok sizeof_T h index \<longleftrightarrow> index < size_elems sizeof_T h"
proof -
  have pos: "0 < unat sizeof_T" using nz by (simp add: unat_gt_0)
  have "access_ok sizeof_T h index \<longleftrightarrow> unat index * unat sizeof_T + unat sizeof_T \<le> unat (size_bytes b)"
    using b by (simp add: access_ok_def check_access_def word_le_nat_alt no_wrap_offset[OF nw])
  also have "\<dots> \<longleftrightarrow> Suc (unat index) * unat sizeof_T \<le> unat (size_bytes b)"
    by (simp add: ac_simps)
  also have "\<dots> \<longleftrightarrow> Suc (unat index) \<le> unat (size_bytes b) div unat sizeof_T"
    using pos by (simp add: less_eq_div_iff_mult_less_eq)
  also have "\<dots> \<longleftrightarrow> index < size_elems sizeof_T h"
    using b by (simp add: size_elems_def word_less_nat_alt unat_div Suc_le_eq)
  finally show ?thesis .
qed

lemma in_range_no_wrap:
  assumes b: "block_info h = Some b" and lt: "index < size_elems sizeof_T h"
  shows "unat index * unat sizeof_T + unat sizeof_T < 2 ^ 64"
proof -
  have "unat index < unat (size_bytes b) div unat sizeof_T"
    using b lt by (simp add: size_elems_def word_less_nat_alt unat_div)
  then have pos: "0 < unat sizeof_T" and "Suc (unat index) \<le> unat (size_bytes b) div unat sizeof_T"
    by (auto intro: Nat.gr0I)
  then have "Suc (unat index) * unat sizeof_T \<le> unat (size_bytes b)"
    by (simp add: less_eq_div_iff_mult_less_eq)
  moreover have "unat (size_bytes b) < 2 ^ 64"
    using unsigned_less[of "size_bytes b"] by simp
  ultimately show ?thesis by simp
qed

lemma guarded_access_in_range:
  assumes "block_info h = Some b" and "index < size_elems sizeof_T h"
  shows "subscript sizeof_T mem h index = Inr (mem (ptr h + index * sizeof_T))"
    and "safe_at sizeof_T mem h index = Some (mem (ptr h + index * sizeof_T))"
proof -
  have "sizeof_T \<noteq> 0"
    using assms by (auto simp: size_elems_def word_less_nat_alt unat_div)
  then have "access_ok sizeof_T h index"
    using assms access_ok_no_wrap[OF assms(1) _ in_range_no_wrap[OF assms]] by simp
  then show "subscript sizeof_T mem h index = Inr (mem (ptr h + index * sizeof_T))"
    and "safe_at sizeof_T mem h index = Some (mem (ptr h + index * sizeof_T))"
    by (simp_all add: subscript_def safe_at_def)
qed

lemma guarded_access_out_of_range:
  assumes "sizeof_T \<noteq> 0" and "size_elems sizeof_T h \<le> index"
    and "unat index * unat sizeof_T + unat sizeof_T < 2 ^ 64"
  shows "subscript sizeof_T mem h index = Inl out_of_bounds_error"
    and "safe_at sizeof_T mem h index = None"
proof -
  have "\<not> access_ok sizeof_T h index"
  proof (cases "block_info h")
    case None
    then show ?thesis by (simp add: access_ok_def)
  next
    case (Some b)
    then show ?thesis using assms access_ok_no_wrap[OF Some assms(1) assms(3)] by simp
  qed
  then show "subscript sizeof_T mem h index = Inl out_of_bounds_error"
    and "safe_at sizeof_T mem h index = None"
    by (simp_all add: subscript_def safe_at_def)
qed

lemma last_index_passes_check:
  "block_info h = Some b \<Longrightarrow> access_ok sizeof_T h (- 1)"
  by (simp add: access_ok_def check_access_def)

text \<open>
  C1. For a guarded handle returned by \<^verbatim>\<open>allocate<T>(count, context)\<close> and an index
  \<open>i\<close>: if \<open>i \<ge> size()\<close> then \<^verbatim>\<open>operator[](i)\<close> fails with the Memory error
  ``Array access out of bounds'' and \<^verbatim>\<open>safe_at(i)\<close> returns an absent value; if
  \<open>i < size()\<close> both return the element stored at position \<open>i\<close>.

  \<open>guarded_access_in_range\<close> and \<open>guarded_access_out_of_range\<close> prove this for every
  index whose byte offset \<open>i * sizeof(T) + sizeof(T)\<close> stays below \<open>2^64\<close>, and every index
  below \<open>size()\<close> is such an index. The source computes the offset in \<^verbatim>\<open>size_t\<close>, though, and for the index
  \<open>2^64 - 1\<close> it wraps to 0, which \<^verbatim>\<open>check_access\<close> accepts for every block
  (\<open>last_index_passes_check\<close>). The theorem runs the source on the handle of
  \<^verbatim>\<open>allocate<float>(1000, "test_array")\<close>, whose \<^verbatim>\<open>size()\<close> is 1000: at the index
  \<open>2^64 - 1\<close> \<^verbatim>\<open>operator[]\<close> does not fail and \<^verbatim>\<open>safe_at\<close> is not absent; both hand
  out the \<^verbatim>\<open>float\<close> at address \<open>4092\<close>, four bytes before the block at \<open>4096\<close>.
\<close>

theorem subscript_wraps_past_the_check:
  "(case allocate 4 1000 ''test_array'' 0 4096 new_manager of
      Inl e \<Rightarrow> False
    | Inr (h, m) \<Rightarrow>
        size_elems 4 h = 1000
      \<and> size_elems 4 h \<le> - 1
      \<and> unat (- 1 :: size_t) = 18446744073709551615
      \<and> subscript 4 mem h (- 1) = Inr (mem 4092)
      \<and> safe_at 4 mem h (- 1) = Some (mem 4092))"
  by (simp add: allocate_def new_manager_def MAX_ALLOCATION_def ALIGNMENT_def Let_def
      size_elems_def subscript_def safe_at_def access_ok_def check_access_def
      unsigned_minus_1_eq_mask mask_eq_exp_minus_1)

section \<open>Properties of \<^verbatim>\<open>allocate\<close>\<close>

lemma allocate_without_wrap:
  assumes nw: "unat count * unat sizeof_T < 2 ^ 64"
  shows "allocate sizeof_T count ctx now raw_ptr m =
     (if unat count * unat sizeof_T > 1024 * 1024 * 1024 then Inl limit_error
      else if raw_ptr = 0 then Inl alloc_failed_error
      else Inr (\<lparr>ptr = raw_ptr, block_info = Some \<lparr>data_ptr = raw_ptr,
                   size_bytes = count * sizeof_T, alignment = ALIGNMENT, allocated_time = now,
                   allocation_context = ctx, ref_count = 1, is_protected = True\<rparr>\<rparr>,
                m\<lparr>protected_blocks := AList.update raw_ptr \<lparr>data_ptr = raw_ptr,
                   size_bytes = count * sizeof_T, alignment = ALIGNMENT, allocated_time = now,
                   allocation_context = ctx, ref_count = 1, is_protected = True\<rparr> (protected_blocks m)\<rparr>))"
proof -
  have "unat (count * sizeof_T) = unat count * unat sizeof_T"
    using nw by (simp add: unat_mult_lem[THEN iffD1])
  then have "count * sizeof_T > MAX_ALLOCATION \<longleftrightarrow> unat count * unat sizeof_T > 1024 * 1024 * 1024"
    by (simp add: word_less_nat_alt MAX_ALLOCATION_def)
  then show ?thesis by (simp add: allocate_def Let_def)
qed

lemma allocate_registers:
  "allocate sizeof_T count ctx now raw_ptr m = Inr (h, m') \<Longrightarrow>
   ptr h = raw_ptr \<and> raw_ptr \<noteq> 0 \<and> count * sizeof_T \<le> MAX_ALLOCATION
   \<and> map_of (protected_blocks m') raw_ptr = block_info h
   \<and> map_option size_bytes (block_info h) = Some (count * sizeof_T)"
  by (auto simp: allocate_def Let_def AList.update_conv split: if_splits)

text \<open>
  C5. For every count and element type, \<^verbatim>\<open>allocate<T>(count, context)\<close> fails with a
  Memory error when \<open>count * sizeof(T)\<close> exceeds 1 GiB or when the underlying allocation
  returns null; otherwise it succeeds and registers a new block, keyed by the returned
  address, whose recorded size is \<open>count * sizeof(T)\<close>.

  \<open>allocate_without_wrap\<close> proves this for every request whose byte size
  \<open>count * sizeof(T)\<close> is below \<open>2^64\<close>. The source multiplies in \<^verbatim>\<open>size_t\<close>, so a larger
  request is compared with the limit after it has wrapped. The theorem runs the source
  on \<^verbatim>\<open>allocate<float>(4611686018427388154, "t")\<close>, a request for \<open>2^64 + 1000\<close> bytes:
  it does not fail, and it registers a block of 1000 bytes.
\<close>

theorem allocate_wraps_past_the_limit:
  "unat (4611686018427388154 :: size_t) * unat (4 :: size_t) > 1024 * 1024 * 1024
   \<and> allocate 4 4611686018427388154 ''t'' 0 4096 new_manager =
       Inr (\<lparr>ptr = 4096, block_info = Some \<lparr>data_ptr = 4096, size_bytes = 1000, alignment = 16,
               allocated_time = 0, allocation_context = ''t'', ref_count = 1, is_protected = True\<rparr>\<rparr>,
            \<lparr>protected_blocks = [(4096, \<lparr>data_ptr = 4096, size_bytes = 1000, alignment = 16,
               allocated_time = 0, allocation_context = ''t'', ref_count = 1, is_protected = True\<rparr>)]\<rparr>)"
  by (simp add: allocate_def new_manager_def MAX_ALLOCATION_def ALIGNMENT_def Let_def)

section \<open>Properties of the allocator's statistics\<close>

subsection \<open>The registry keeps one entry per address, none at null\<close>

lemma registry_ok_update:
  "registry_ok reg \<Longrightarrow> p \<noteq> 0 \<Longrightarrow> registry_ok (AList.update p b reg)"
  by (auto simp: registry_ok_def AList.distinct_update AList.dom_update)

lemma registry_ok_delete:
  "registry_ok reg \<Longrightarrow> registry_ok (AList.delete p reg)"
  using AList.dom_delete_subset[of p reg]
  by (auto simp: registry_ok_def AList.distinct_delete)

lemma apply_mem_op_ok:
  "registry_ok (protected_blocks m) \<Longrightarrow> registry_ok (protected_blocks (apply_mem_op op m))"
  by (cases op)
    (auto simp: allocate_def deallocate_def Let_def registry_ok_update registry_ok_delete
      split: option.splits)

lemma run_mem_ops_ok:
  "registry_ok (protected_blocks m) \<Longrightarrow> registry_ok (protected_blocks (run_mem_ops ops m))"
  by (induction ops arbitrary: m) (auto simp: apply_mem_op_ok)

lemma length_registry:
  assumes "registry_ok reg"
  shows "length reg < 2 ^ 64"
proof -
  have "length reg = card (fst ` set reg)"
    using assms by (metis registry_ok_def distinct_card length_map set_map)
  also have "fst ` set reg \<subseteq> UNIV - {0::64 word}"
    using assms by (auto simp: registry_ok_def)
  then have "card (fst ` set reg) \<le> card (UNIV - {0::64 word})"
    by (intro card_mono) auto
  also have "\<dots> = 2 ^ 64 - 1"
    by (simp add: card_Diff_singleton card_word)
  finally show ?thesis by simp
qed

subsection \<open>What the loop of \<^verbatim>\<open>get_stats\<close> adds up\<close>

lemma stats_loop_total:
  "total_allocated (stats_loop now reg st) =
     total_allocated st + sum_list (map (\<lambda>(p, b). size_bytes b) reg)"
  by (induction now reg st rule: stats_loop.induct) (auto simp: add.assoc)

lemma stats_loop_count:
  "block_count (stats_loop now reg st) = block_count st"
  by (induction now reg st rule: stats_loop.induct) auto

lemma sum_dom_map_of:
  fixes f :: "'b \<Rightarrow> 'c::comm_monoid_add"
  shows "distinct (map fst al) \<Longrightarrow>
    (\<Sum>p\<in>dom (map_of al). f (the (map_of al p))) = sum_list (map (\<lambda>(p, b). f b) al)"
proof (induction al)
  case Nil
  then show ?case by simp
next
  case (Cons a al)
  obtain k v where a: "a = (k, v)" by (cases a)
  from Cons.prems a have k: "k \<notin> dom (map_of al)" and d: "distinct (map fst al)"
    by (auto simp: dom_map_of_conv_image_fst)
  have "(\<Sum>p\<in>dom (map_of (a # al)). f (the (map_of (a # al) p)))
      = (\<Sum>p\<in>insert k (dom (map_of al)). f (the (if p = k then Some v else map_of al p)))"
    using a by (auto intro!: sum.cong)
  also have "\<dots> = f v + (\<Sum>p\<in>dom (map_of al). f (the (if p = k then Some v else map_of al p)))"
    using k by (simp add: finite_dom_map_of)
  also have "(\<Sum>p\<in>dom (map_of al). f (the (if p = k then Some v else map_of al p)))
      = (\<Sum>p\<in>dom (map_of al). f (the (map_of al p)))"
    using k by (intro sum.cong) auto
  finally show ?case using Cons.IH[OF d] a by simp
qed

lemma get_stats_total:
  "registry_ok (protected_blocks m) \<Longrightarrow>
   total_allocated (get_stats now m) =
     (\<Sum>p\<in>dom (map_of (protected_blocks m)). size_bytes (the (map_of (protected_blocks m) p)))"
  by (simp add: get_stats_def stats_loop_total registry_ok_def sum_dom_map_of)

lemma get_stats_count:
  assumes "registry_ok (protected_blocks m)"
  shows "unat (block_count (get_stats now m)) = card (dom (map_of (protected_blocks m)))"
proof -
  have "unat (block_count (get_stats now m)) = length (protected_blocks m)"
    using length_registry[OF assms] by (simp add: get_stats_def stats_loop_count unat_of_nat)
  also have "\<dots> = card (dom (map_of (protected_blocks m)))"
    using assms
    by (metis registry_ok_def distinct_card length_map set_map dom_map_of_conv_image_fst)
  finally show ?thesis .
qed

subsection \<open>Live blocks share no byte, so their sizes cannot add up past the address space\<close>

lemma apart_region:
  "apart p n q k \<Longrightarrow> size_bytes b = n \<Longrightarrow> size_bytes c = k \<Longrightarrow>
   region (p, b) \<inter> region (q, c) = {}"
  by (auto simp: apart_def region_def)

lemma update_fresh: "k \<notin> fst ` set al \<Longrightarrow> AList.update k v al = al @ [(k, v)]"
  by (induction al) auto

lemma heap_inv_Cons: "heap_inv (e # reg) \<Longrightarrow> heap_inv reg"
  by (auto simp: heap_inv_def registry_ok_def)

lemma heap_inv_sum:
  "heap_inv reg \<Longrightarrow>
   (\<Sum>e\<leftarrow>reg. unat (size_bytes (snd e))) = card (\<Union>e\<in>set reg. region e)
   \<and> (\<Union>e\<in>set reg. region e) \<subseteq> {1..<2 ^ 64}"
proof (induction reg)
  case Nil
  then show ?case by simp
next
  case (Cons e reg)
  from Cons.prems have inv: "heap_inv reg" by (rule heap_inv_Cons)
  note IH = Cons.IH[OF inv]
  have notin: "e \<notin> set reg"
    using Cons.prems by (auto simp: heap_inv_def registry_ok_def)
  have disj: "region e \<inter> (\<Union>e'\<in>set reg. region e') = {}"
    using Cons.prems notin by (fastforce simp: heap_inv_def)
  have fin: "finite (\<Union>e'\<in>set reg. region e')" "finite (region e)"
    by (auto simp: region_def)
  have "card (\<Union>e'\<in>set (e # reg). region e') = card (region e \<union> (\<Union>e'\<in>set reg. region e'))"
    by simp
  also have "\<dots> = card (region e) + card (\<Union>e'\<in>set reg. region e')"
    using disj fin by (simp add: card_Un_disjoint)
  also have "card (region e) = unat (size_bytes (snd e))"
    by (simp add: region_def)
  finally have 1: "(\<Sum>e\<leftarrow>e # reg. unat (size_bytes (snd e))) = card (\<Union>e'\<in>set (e # reg). region e')"
    using IH by simp
  have "fst e \<noteq> 0" "unat (fst e) + unat (size_bytes (snd e)) \<le> 2 ^ 64"
    using Cons.prems by (auto simp: heap_inv_def registry_ok_def)
  then have "region e \<subseteq> {1..<2 ^ 64}"
    by (auto simp: region_def unat_gt_0 Suc_le_eq)
  with IH 1 show ?case by auto
qed

lemma heap_inv_bound:
  assumes "heap_inv reg"
  shows "(\<Sum>e\<leftarrow>reg. unat (size_bytes (snd e))) < 2 ^ 64"
proof -
  have "card (\<Union>e\<in>set reg. region e) \<le> card {1::nat..<2 ^ 64}"
    using heap_inv_sum[OF assms] by (intro card_mono) auto
  then show ?thesis using heap_inv_sum[OF assms] by simp
qed

lemma heap_inv_update:
  assumes inv: "heap_inv reg" and nz: "raw \<noteq> 0"
    and fresh: "returned_fresh raw (size_bytes b) reg"
  shows "heap_inv (AList.update raw b reg)"
proof -
  from fresh nz have fit: "unat raw + unat (size_bytes b) \<le> 2 ^ 64"
    and each: "\<forall>e\<in>set reg. fst e \<noteq> raw \<and> apart raw (size_bytes b) (fst e) (size_bytes (snd e))"
    by (auto simp: returned_fresh_def list_all_iff)
  from each have notin: "raw \<notin> fst ` set reg" by auto
  then have upd: "AList.update raw b reg = reg @ [(raw, b)]" by (rule update_fresh)
  have d: "region (raw, b) \<inter> region e = {}" if "e \<in> set reg" for e
    using each that apart_region[of raw "size_bytes b" "fst e" "size_bytes (snd e)" b "snd e"]
    by auto
  have "registry_ok (reg @ [(raw, b)])"
    using inv nz notin by (auto simp: heap_inv_def registry_ok_def)
  moreover have "\<forall>e\<in>set (reg @ [(raw, b)]). unat (fst e) + unat (size_bytes (snd e)) \<le> 2 ^ 64"
    using inv fit by (auto simp: heap_inv_def)
  moreover have "\<forall>e\<in>set (reg @ [(raw, b)]). \<forall>e'\<in>set (reg @ [(raw, b)]).
      e \<noteq> e' \<longrightarrow> region e \<inter> region e' = {}"
    using inv d by (auto simp: heap_inv_def Int_commute)
  ultimately show ?thesis by (simp add: heap_inv_def upd)
qed

lemma heap_inv_delete: "heap_inv reg \<Longrightarrow> heap_inv (AList.delete p reg)"
  using registry_ok_delete[of reg p] by (auto simp: heap_inv_def AList.delete_eq)

lemma apply_mem_op_heap_inv:
  "heap_inv (protected_blocks m) \<Longrightarrow> op_respects_heap op m \<Longrightarrow>
   heap_inv (protected_blocks (apply_mem_op op m))"
  by (cases op)
    (auto simp: allocate_def deallocate_def Let_def heap_inv_update heap_inv_delete
      split: option.splits)

lemma run_mem_ops_heap_inv:
  "heap_inv (protected_blocks m) \<Longrightarrow> allocator_contract ops m \<Longrightarrow>
   heap_inv (protected_blocks (run_mem_ops ops m))"
  by (induction ops arbitrary: m) (auto simp: apply_mem_op_heap_inv)

lemma unat_sum_list:
  fixes f :: "'b \<Rightarrow> 64 word"
  shows "(\<Sum>x\<leftarrow>xs. unat (f x)) < 2 ^ 64 \<Longrightarrow> unat (\<Sum>x\<leftarrow>xs. f x) = (\<Sum>x\<leftarrow>xs. unat (f x))"
proof (induction xs)
  case Nil
  then show ?case by simp
next
  case (Cons x xs)
  then have "(\<Sum>x\<leftarrow>xs. unat (f x)) < 2 ^ 64" by simp
  then have IH: "unat (\<Sum>x\<leftarrow>xs. f x) = (\<Sum>x\<leftarrow>xs. unat (f x))" by (rule Cons.IH)
  have "unat (f x + (\<Sum>x\<leftarrow>xs. f x)) = unat (f x) + unat (\<Sum>x\<leftarrow>xs. f x)"
    using Cons.prems IH by (subst unat_add_lem[THEN iffD1]) simp_all
  with IH show ?case by simp
qed

lemma get_stats_total_nat:
  assumes "heap_inv (protected_blocks m)"
  shows "unat (total_allocated (get_stats now m)) =
     (\<Sum>p\<in>dom (map_of (protected_blocks m)). unat (size_bytes (the (map_of (protected_blocks m) p))))"
proof -
  let ?reg = "protected_blocks m"
  have d: "distinct (map fst ?reg)"
    using assms by (simp add: heap_inv_def registry_ok_def)
  have "total_allocated (get_stats now m) = (\<Sum>e\<leftarrow>?reg. size_bytes (snd e))"
    by (simp add: get_stats_def stats_loop_total split_def)
  then have "unat (total_allocated (get_stats now m)) = (\<Sum>e\<leftarrow>?reg. unat (size_bytes (snd e)))"
    using heap_inv_bound[OF assms] by (simp add: unat_sum_list)
  also have "\<dots> = (\<Sum>p\<in>dom (map_of ?reg). unat (size_bytes (the (map_of ?reg p))))"
    using sum_dom_map_of[OF d, of "\<lambda>b. unat (size_bytes b)"] by (simp add: split_def)
  finally show ?thesis .
qed

lemma deallocate_unknown:
  "map_of (protected_blocks m) p = None \<Longrightarrow> deallocate p m = m"
  by (simp add: deallocate_def)

text \<open>
  C2. After every finite sequence of \<^verbatim>\<open>allocate\<close> and \<^verbatim>\<open>deallocate\<close> calls on a new
  manager, \<^verbatim>\<open>get_stats().total_allocated\<close> is the sum of the byte sizes of the blocks
  registered at that moment, and \<^verbatim>\<open>block_count\<close> is the number of registered blocks.
  The sum is the one \<^verbatim>\<open>size_t\<close> arithmetic gives; it is the sum of the sizes as natural
  numbers as well whenever \<^verbatim>\<open>std::aligned_alloc\<close> has kept its contract (the blocks it
  hands out are inside the address space and share no byte with a live block), since
  such blocks cannot add up to \<open>2^64\<close> bytes. A \<^verbatim>\<open>deallocate\<close> of an address that is not
  in the registry leaves the manager, and with it every statistic, unchanged.
\<close>

theorem stats_follow_registry:
  "let m = run_mem_ops ops new_manager; reg = map_of (protected_blocks m) in
     total_allocated (get_stats now m) = (\<Sum>p\<in>dom reg. size_bytes (the (reg p)))
   \<and> (allocator_contract ops new_manager \<longrightarrow>
        unat (total_allocated (get_stats now m)) = (\<Sum>p\<in>dom reg. unat (size_bytes (the (reg p)))))
   \<and> unat (block_count (get_stats now m)) = card (dom reg)
   \<and> (reg p = None \<longrightarrow>
        deallocate p m = m \<and> get_stats now (deallocate p m) = get_stats now m)"
proof -
  have ok0: "registry_ok (protected_blocks new_manager)"
    by (simp add: new_manager_def registry_ok_def)
  have inv0: "heap_inv (protected_blocks new_manager)"
    by (simp add: new_manager_def heap_inv_def registry_ok_def)
  note ok = run_mem_ops_ok[OF ok0, of ops]
  show ?thesis
    unfolding Let_def
    using get_stats_total[OF ok, of now] get_stats_count[OF ok, of now]
      get_stats_total_nat[OF run_mem_ops_heap_inv[OF inv0], of ops now]
    by (simp add: deallocate_unknown)
qed

text \<open>
  The theorem at a run of three calls: two blocks of 4000 and 16 bytes are allocated, the
  first is freed, and a second \<^verbatim>\<open>deallocate\<close> of its address is then a call on an
  address the registry does not hold.
\<close>

theorem stats_follow_registry_witness:
  "allocator_contract [Allocate 4 1000 ''t'' 0 4096, Allocate 1 16 ''u'' 1 8192, Deallocate 4096] new_manager
   \<and> map_of (protected_blocks (run_mem_ops
         [Allocate 4 1000 ''t'' 0 4096, Allocate 1 16 ''u'' 1 8192, Deallocate 4096] new_manager)) 4096 = None
   \<and> unat (total_allocated (get_stats 5000000 (run_mem_ops
         [Allocate 4 1000 ''t'' 0 4096, Allocate 1 16 ''u'' 1 8192, Deallocate 4096] new_manager))) = 16
   \<and> unat (block_count (get_stats 5000000 (run_mem_ops
         [Allocate 4 1000 ''t'' 0 4096, Allocate 1 16 ''u'' 1 8192, Deallocate 4096] new_manager))) = 1
   \<and> deallocate 4096 (run_mem_ops
         [Allocate 4 1000 ''t'' 0 4096, Allocate 1 16 ''u'' 1 8192, Deallocate 4096] new_manager)
       = run_mem_ops [Allocate 4 1000 ''t'' 0 4096, Allocate 1 16 ''u'' 1 8192, Deallocate 4096] new_manager"
proof -
  let ?ops = "[Allocate 4 1000 ''t'' 0 4096, Allocate 1 16 ''u'' 1 8192, Deallocate 4096]"
  have run: "run_mem_ops ?ops new_manager =
      \<lparr>protected_blocks = [(8192, \<lparr>data_ptr = 8192, size_bytes = 16, alignment = 16,
         allocated_time = 1, allocation_context = ''u'', ref_count = 1, is_protected = True\<rparr>)]\<rparr>"
    by (simp add: new_manager_def allocate_def deallocate_def Let_def MAX_ALLOCATION_def ALIGNMENT_def)
  have c: "allocator_contract ?ops new_manager"
    by (simp add: new_manager_def allocate_def deallocate_def Let_def MAX_ALLOCATION_def
        ALIGNMENT_def returned_fresh_def apart_def)
  have n: "map_of (protected_blocks (run_mem_ops ?ops new_manager)) 4096 = None"
    unfolding run by simp
  note facts = stats_follow_registry[of ?ops 5000000 4096, unfolded Let_def]
  from facts c n show ?thesis
    unfolding run by simp
qed

section \<open>Properties of the reclaimer\<close>

text \<open>
  C9. A cleanup cycle of the reclaimer performs no reclamation: whatever the allocator
  holds, \<^verbatim>\<open>perform_incremental_cleanup\<close> leaves the block registry as it was (no block is
  freed or removed), so the statistics read afterwards are the ones read before. The same
  holds of a whole turn of the reclaimer's loop, at every load.
\<close>

theorem cleanup_reclaims_nothing:
  "protected_blocks (snd (perform_incremental_cleanup now m)) = protected_blocks m
   \<and> snd (perform_incremental_cleanup now m) = m
   \<and> get_stats t (snd (perform_incremental_cleanup now m)) = get_stats t m
   \<and> gc_cycle system_load now m = m"
  by (simp add: perform_incremental_cleanup_def gc_cycle_def Let_def)

section \<open>Properties of the worker pool\<close>

lemma needs_mandatory_break_iff:
  "needs_mandatory_break now metrics \<longleftrightarrow>
     sint (consecutive_tasks metrics) \<ge> 50
   \<or> now - last_break metrics \<ge> 7200000000000
   \<or> stress_level metrics \<ge> 8 / 10"
  by (simp add: needs_mandatory_break_def Let_def MAX_CONSECUTIVE_TASKS_def
      MAX_WORK_DURATION_def MAX_STRESS_LEVEL_def hours_def)

lemma complete_tasks_queue:
  "task_queue (complete_tasks ts w) = task_queue w"
  by (induction ts arbitrary: w) auto

lemma complete_tasks_count:
  "consecutive_tasks (wellness (complete_tasks ts w)) =
     consecutive_tasks (wellness w) + of_nat (length ts)"
  by (induction ts arbitrary: w) (auto simp: record_task_completion_def Let_def)

lemma fifty_completions:
  assumes "consecutive_tasks (wellness w) = 0" and "length ts = 50"
  shows "sint (consecutive_tasks (wellness (complete_tasks ts w))) = 50"
  using assms by (simp add: complete_tasks_count)

text \<open>
  C6. \<^verbatim>\<open>try_assign_task\<close> returns false and leaves the worker as it was (nothing is
  enqueued) exactly when the worker needs a mandatory break: its consecutive completed
  tasks are at least 50, or the time since its last rest is at least 2 hours, or its
  stress level is at least 0.8. Otherwise it returns true and the task is at the back of
  the worker's queue. In particular, a worker that was rested (counter 0) and has since
  recorded 50 completions, at whatever times, refuses every \<^verbatim>\<open>try_assign_task\<close>, at
  every time and for every task; the refusal leaves it unchanged, so it goes on
  refusing until \<^verbatim>\<open>take_wellness_break\<close> resets the counter.
\<close>

theorem try_assign_refuses_when_break_due:
  "(fst (try_assign_task now task w) = False
      \<longleftrightarrow> sint (consecutive_tasks (wellness w)) \<ge> 50
        \<or> now - last_break (wellness w) \<ge> hours 2
        \<or> stress_level (wellness w) \<ge> 8 / 10)
   \<and> (fst (try_assign_task now task w) = False \<longrightarrow> snd (try_assign_task now task w) = w)
   \<and> (fst (try_assign_task now task w) = True \<longrightarrow>
        snd (try_assign_task now task w) = w\<lparr>task_queue := task_queue w @ [Task task]\<rparr>)
   \<and> (consecutive_tasks (wellness w) = 0 \<and> length ts = 50 \<longrightarrow>
        try_assign_task now task (complete_tasks ts w) = (False, complete_tasks ts w))"
proof -
  have "needs_mandatory_break now (wellness (complete_tasks ts w))"
    if "consecutive_tasks (wellness w) = 0" "length ts = 50"
    using fifty_completions[OF that] by (simp add: needs_mandatory_break_iff)
  then show ?thesis
    by (auto simp: try_assign_task_def needs_mandatory_break_iff hours_def)
qed

text \<open>
  At a new worker (identity 7, created at time 0): it accepts a task at time 2000, and
  after 50 completions at time 1000 it refuses.
\<close>

theorem try_assign_refuses_when_break_due_witness:
  "consecutive_tasks (wellness (new_worker 0 7 :: nat CooperativeWorker)) = 0
   \<and> length (replicate 50 (1000::int)) = 50
   \<and> try_assign_task 2000 (1::nat) (complete_tasks (replicate 50 1000) (new_worker 0 7))
       = (False, complete_tasks (replicate 50 1000) (new_worker 0 7))
   \<and> fst (try_assign_task 2000 (1::nat) (new_worker 0 7)) = True
   \<and> snd (try_assign_task 2000 (1::nat) (new_worker 0 7))
       = (new_worker 0 7)\<lparr>task_queue := [Task 1]\<rparr>"
proof -
  have a: "consecutive_tasks (wellness (new_worker 0 7 :: nat CooperativeWorker)) = 0"
    by (simp add: new_worker_def new_metrics_def)
  have b: "length (replicate 50 (1000::int)) = 50" by simp
  have c: "fst (try_assign_task 2000 (1::nat) (new_worker 0 7)) = True"
    by (simp add: try_assign_task_def needs_mandatory_break_iff new_worker_def new_metrics_def)
  have q: "task_queue (new_worker 0 7 :: nat CooperativeWorker) = []"
    by (simp add: new_worker_def)
  from try_assign_refuses_when_break_due[of 2000 "1::nat" "new_worker 0 7" "replicate 50 1000"] a b c
  show ?thesis by (simp add: q)
qed

lemma lowest_stress_loop_none:
  "list_all (\<lambda>w. \<not> get_stress_level w < STRESS_THRESHOLD) ws \<Longrightarrow>
   lowest_stress_loop ws i acc = acc"
  by (induction ws i acc rule: lowest_stress_loop.induct) (auto simp: Let_def)

lemma find_optimal_worker_fallback:
  assumes "list_all (\<lambda>w. \<not> get_stress_level w < STRESS_THRESHOLD) (workers pool)"
  shows "find_optimal_worker pool =
     (if workers pool \<noteq> []
      then (Some (unat (round_robin_counter pool) mod length (workers pool)),
            pool\<lparr>round_robin_counter := round_robin_counter pool + 1\<rparr>)
      else (None, pool))"
  by (simp add: find_optimal_worker_def lowest_stress_loop_none[OF assms])

text \<open>
  C3 reads: for every pool state in which every worker's stress level is above 0.6,
  \<^verbatim>\<open>submit_with_care\<close> fails with a Runtime ``overwhelmed'' error and does not enqueue the
  task on any worker. It does not hold: in a pool of one worker with stress 0.7 that has
  just rested, no worker is below the threshold, \<^verbatim>\<open>find_optimal_worker\<close> falls back to
  round-robin, the worker needs no mandatory break (0.7 is below 0.8), and the task is
  enqueued.
\<close>

theorem submit_enqueues_on_stressed_pool:
  "get_stress_level ((new_worker 0 0 :: nat CooperativeWorker)\<lparr>wellness := (new_metrics 0)\<lparr>stress_level := 7 / 10\<rparr>\<rparr>) > 6 / 10
   \<and> submit_with_care 0 (1::nat)
        \<lparr>workers = [(new_worker 0 0)\<lparr>wellness := (new_metrics 0)\<lparr>stress_level := 7 / 10\<rparr>\<rparr>],
         round_robin_counter = 0\<rparr>
     = (Inr (),
        \<lparr>workers = [(new_worker 0 0)\<lparr>wellness := (new_metrics 0)\<lparr>stress_level := 7 / 10\<rparr>,
                                      task_queue := [Task 1]\<rparr>],
         round_robin_counter = 1\<rparr>)"
  by (simp add: submit_with_care_def find_optimal_worker_def try_assign_task_def
      needs_mandatory_break_def get_stress_level_def STRESS_THRESHOLD_def new_worker_def
      new_metrics_def Let_def MAX_CONSECUTIVE_TASKS_def MAX_WORK_DURATION_def
      MAX_STRESS_LEVEL_def hours_def)

text \<open>
  C3, as the source has it. In a pool state in which every worker's stress level is
  above 0.6, \<^verbatim>\<open>submit_with_care\<close> takes the worker at position
  \<open>round_robin_counter mod n\<close> and moves the counter on. It fails with the Runtime error
  ``Could not assign task - worker needs wellness break'' and enqueues nothing exactly
  when that worker needs a mandatory break; otherwise it succeeds and the task is at the
  back of that worker's queue, every other worker unchanged. A pool without workers
  fails with the Runtime error ``All workers are overwhelmed and need rest''. So when
  every worker's stress level is at least 0.8, the call fails with a Runtime error and
  no worker's queue changes.
\<close>

theorem submit_on_stressed_pool:
  assumes "list_all (\<lambda>w. get_stress_level w > 6 / 10) (workers pool)"
  shows "(workers pool = [] \<longrightarrow>
            submit_with_care now task pool = (Inl all_overwhelmed_error, pool))
       \<and> (workers pool \<noteq> [] \<longrightarrow>
            (let i = unat (round_robin_counter pool) mod length (workers pool);
                 w = workers pool ! i;
                 pool' = pool\<lparr>round_robin_counter := round_robin_counter pool + 1\<rparr>
             in submit_with_care now task pool =
                  (if needs_mandatory_break now (wellness w)
                   then (Inl not_assigned_error, pool')
                   else (Inr (), pool'\<lparr>workers :=
                           (workers pool)[i := w\<lparr>task_queue := task_queue w @ [Task task]\<rparr>]\<rparr>))))
       \<and> (list_all (\<lambda>w. get_stress_level w \<ge> 8 / 10) (workers pool) \<longrightarrow>
            (case fst (submit_with_care now task pool) of
               Inl e \<Rightarrow> error_type e = RuntimeError
             | Inr u \<Rightarrow> False)
            \<and> workers (snd (submit_with_care now task pool)) = workers pool)"
proof -
  have none: "list_all (\<lambda>w. \<not> get_stress_level w < STRESS_THRESHOLD) (workers pool)"
    using assms by (auto simp: list_all_iff STRESS_THRESHOLD_def)
  note fb = find_optimal_worker_fallback[OF none]
  have empty: "submit_with_care now task pool = (Inl all_overwhelmed_error, pool)"
    if "workers pool = []"
    using that by (simp add: submit_with_care_def fb)
  have pick: "submit_with_care now task pool =
      (if needs_mandatory_break now (wellness (workers pool ! (unat (round_robin_counter pool) mod length (workers pool))))
       then (Inl not_assigned_error, pool\<lparr>round_robin_counter := round_robin_counter pool + 1\<rparr>)
       else (Inr (), pool\<lparr>round_robin_counter := round_robin_counter pool + 1,
               workers := (workers pool)[unat (round_robin_counter pool) mod length (workers pool) :=
                 (workers pool ! (unat (round_robin_counter pool) mod length (workers pool)))
                   \<lparr>task_queue := task_queue (workers pool ! (unat (round_robin_counter pool) mod length (workers pool))) @ [Task task]\<rparr>]\<rparr>))"
    if "workers pool \<noteq> []"
    using that by (simp add: submit_with_care_def fb try_assign_task_def)
  have refuse: "needs_mandatory_break now (wellness (workers pool ! (unat (round_robin_counter pool) mod length (workers pool))))"
    if "workers pool \<noteq> []" and "list_all (\<lambda>w. get_stress_level w \<ge> 8 / 10) (workers pool)"
  proof -
    have "unat (round_robin_counter pool) mod length (workers pool) < length (workers pool)"
      using that(1) by simp
    then have "get_stress_level (workers pool ! (unat (round_robin_counter pool) mod length (workers pool))) \<ge> 8 / 10"
      using that(2) by (simp add: list_all_length)
    then show ?thesis
      by (simp add: needs_mandatory_break_def get_stress_level_def MAX_STRESS_LEVEL_def)
  qed
  have high: "(case fst (submit_with_care now task pool) of
               Inl e \<Rightarrow> error_type e = RuntimeError
             | Inr u \<Rightarrow> False)
            \<and> workers (snd (submit_with_care now task pool)) = workers pool"
    if "list_all (\<lambda>w. get_stress_level w \<ge> 8 / 10) (workers pool)"
  proof (cases "workers pool = []")
    case True
    then show ?thesis
      by (simp add: empty all_overwhelmed_error_def with_context_def with_suggestion_def
          mk_HerLangError_def)
  next
    case False
    then show ?thesis
      using refuse[OF False that]
      by (simp add: pick not_assigned_error_def with_context_def with_suggestion_def
          mk_HerLangError_def)
  qed
  show ?thesis
    using empty pick high by (simp add: Let_def)
qed

text \<open>
  At a pool of two workers with stress 0.9 and 0.85 whose counter stands at 1: the
  second worker is picked and refuses.
\<close>

theorem submit_on_stressed_pool_witness:
  "list_all (\<lambda>w. get_stress_level w > 6 / 10)
     [(new_worker 0 0 :: nat CooperativeWorker)\<lparr>wellness := (new_metrics 0)\<lparr>stress_level := 9 / 10\<rparr>\<rparr>,
      (new_worker 0 1)\<lparr>wellness := (new_metrics 0)\<lparr>stress_level := 85 / 100\<rparr>\<rparr>]
   \<and> submit_with_care 5 (1::nat)
        \<lparr>workers = [(new_worker 0 0)\<lparr>wellness := (new_metrics 0)\<lparr>stress_level := 9 / 10\<rparr>\<rparr>,
                    (new_worker 0 1)\<lparr>wellness := (new_metrics 0)\<lparr>stress_level := 85 / 100\<rparr>\<rparr>],
         round_robin_counter = 1\<rparr>
     = (Inl not_assigned_error,
        \<lparr>workers = [(new_worker 0 0)\<lparr>wellness := (new_metrics 0)\<lparr>stress_level := 9 / 10\<rparr>\<rparr>,
                    (new_worker 0 1)\<lparr>wellness := (new_metrics 0)\<lparr>stress_level := 85 / 100\<rparr>\<rparr>],
         round_robin_counter = 2\<rparr>)"
proof -
  let ?ws = "[(new_worker 0 0 :: nat CooperativeWorker)\<lparr>wellness := (new_metrics 0)\<lparr>stress_level := 9 / 10\<rparr>\<rparr>,
      (new_worker 0 1)\<lparr>wellness := (new_metrics 0)\<lparr>stress_level := 85 / 100\<rparr>\<rparr>]"
  let ?pool = "\<lparr>workers = ?ws, round_robin_counter = 1\<rparr>"
  have h: "list_all (\<lambda>w. get_stress_level w > 6 / 10) (workers ?pool)"
    by (simp add: get_stress_level_def)
  have b: "needs_mandatory_break 5 (wellness (?ws ! 1))"
    by (simp add: needs_mandatory_break_def MAX_STRESS_LEVEL_def)
  from submit_on_stressed_pool[OF h, of 5 1] b h show ?thesis
    by (simp add: Let_def)
qed

section \<open>Properties of the protected shared cell\<close>

lemma safe_read_counter:
  "read_count (snd (safe_read reader s)) =
     (case reader (data s) of Inl e \<Rightarrow> read_count s | Inr r \<Rightarrow> read_count s + 1)"
  by (simp add: safe_read_def Let_def split: sum.splits)

lemma safe_read_data: "data (snd (safe_read reader s)) = data s"
  by (simp add: safe_read_def Let_def split: sum.splits)

lemma run_reads_data: "data (run_reads readers s) = data s"
  by (induction readers arbitrary: s) (simp_all add: safe_read_data)

lemma run_reads_counter:
  "read_count (run_reads readers s) =
     read_count s + of_nat (length (filter (\<lambda>reader. \<not> isl (reader (data s))) readers))"
proof (induction readers arbitrary: s)
  case Nil
  then show ?case by simp
next
  case (Cons reader readers)
  show ?case
    by (cases "reader (data s)") (simp_all add: Cons.IH safe_read_counter safe_read_data)
qed

text \<open>
  C10. If the function passed to \<^verbatim>\<open>safe_read\<close> throws, the exception reaches the caller
  and the read counter that \<^verbatim>\<open>get_stats\<close> reports is the one from before the call; if
  it returns normally, the caller gets its result and the counter is one greater than
  before (in \<^verbatim>\<open>size_t\<close> arithmetic, and as a number as long as the counter was not at
  its greatest value). The normal path never takes the increment back, so after any
  series of reads the counter has grown by the number of reads that returned normally:
  it counts successful reads, not readers in flight. A read leaves the value alone.
\<close>

theorem read_counter_counts_successful_reads:
  "(case reader (data s) of
      Inl e \<Rightarrow>
        fst (safe_read reader s) = Inl e
      \<and> total_reads (get_access_stats t (snd (safe_read reader s))) = total_reads (get_access_stats t s)
    | Inr r \<Rightarrow>
        fst (safe_read reader s) = Inr r
      \<and> total_reads (get_access_stats t (snd (safe_read reader s))) = total_reads (get_access_stats t s) + 1
      \<and> (unat (read_count s) < 2 ^ 64 - 1 \<longrightarrow>
           unat (total_reads (get_access_stats t (snd (safe_read reader s))))
             = unat (total_reads (get_access_stats t s)) + 1))
   \<and> data (snd (safe_read reader s)) = data s
   \<and> total_reads (get_access_stats t (run_reads readers s)) =
       total_reads (get_access_stats t s)
         + of_nat (length (filter (\<lambda>reader. \<not> isl (reader (data s))) readers))"
proof -
  have "unat (read_count s + 1) = unat (read_count s) + 1" if "unat (read_count s) < 2 ^ 64 - 1"
    using that by (simp add: unat_add_lem[THEN iffD1])
  moreover have "total_reads (get_access_stats t (run_reads readers s)) =
       total_reads (get_access_stats t s)
         + of_nat (length (filter (\<lambda>reader. \<not> isl (reader (data s))) readers))"
    by (simp add: get_access_stats_def run_reads_counter)
  ultimately show ?thesis
    by (simp add: safe_read_def get_access_stats_def Let_def split: sum.splits)
qed

text \<open>
  At a new cell holding 41: a read that returns, then (on the new cell again) a read that
  throws.
\<close>

theorem read_counter_counts_successful_reads_witness:
  "unat (read_count (new_state (41::int) ''cell'' 0)) < 2 ^ 64 - 1
   \<and> fst (safe_read (\<lambda>d. (Inr (d + 1) :: string + int)) (new_state 41 ''cell'' 0)) = Inr 42
   \<and> unat (total_reads (get_access_stats 9 (snd (safe_read (\<lambda>d. (Inr (d + 1) :: string + int))
         (new_state 41 ''cell'' 0))))) = 1
   \<and> fst (safe_read (\<lambda>d. (Inl ''boom'' :: string + int)) (new_state (41::int) ''cell'' 0)) = Inl ''boom''
   \<and> total_reads (get_access_stats 9 (snd (safe_read (\<lambda>d. (Inl ''boom'' :: string + int))
         (new_state (41::int) ''cell'' 0)))) = 0"
proof -
  have z: "read_count (new_state (41::int) ''cell'' 0) = 0" "data (new_state (41::int) ''cell'' 0) = 41"
    "total_reads (get_access_stats 9 (new_state (41::int) ''cell'' 0)) = 0"
    by (simp_all add: new_state_def get_access_stats_def)
  from read_counter_counts_successful_reads[of "\<lambda>d. (Inr (d + 1) :: string + int)"
      "new_state (41::int) ''cell'' 0" 9 "[]"]
    read_counter_counts_successful_reads[of "\<lambda>d. (Inl ''boom'' :: string + int)"
      "new_state (41::int) ''cell'' 0" 9 "[]"]
  show ?thesis by (simp add: z)
qed

lemma safe_write_counter:
  "write_count (snd (safe_write writer s)) = write_count s"
  by (simp add: safe_write_def Let_def split: prod.splits sum.splits)

text \<open>
  C4. Each \<^verbatim>\<open>safe_write\<close> whose writer function returns normally is to raise the write
  counter that \<^verbatim>\<open>get_stats\<close> reports (\<^verbatim>\<open>total_writes\<close>) by exactly one. The source
  increments \<^verbatim>\<open>write_count\<close> before the writer runs and decrements it on both exits, so
  the counter is after every \<^verbatim>\<open>safe_write\<close> what it was before (\<open>safe_write_counter\<close>),
  while \<^verbatim>\<open>optimistic_update\<close> and \<^verbatim>\<open>try_update_for\<close> do count their writes. The
  theorem runs the source on a new cell holding 0 and a writer that adds 100:
  the value is 100 afterwards and \<^verbatim>\<open>total_writes\<close> is still 0.
\<close>

theorem safe_write_leaves_write_counter:
  "safe_write (\<lambda>d. (Inr d :: unit + int, d + 100)) (new_state (0::int) ''test_counter'' 0)
     = (Inr 0, \<lparr>data = 100, state_name = ''test_counter'', read_count = 0, write_count = 0,
                creation_time = 0\<rparr>)
   \<and> total_writes (get_access_stats 1 (new_state (0::int) ''test_counter'' 0)) = 0
   \<and> total_writes (get_access_stats 1 (snd (safe_write (\<lambda>d. (Inr d :: unit + int, d + 100))
        (new_state (0::int) ''test_counter'' 0)))) = 0"
  by (simp add: safe_write_def new_state_def get_access_stats_def Let_def)

lemma optimistic_loop_first_attempt:
  assumes "attempt < max_retries" and "data (env attempt s) = data s"
  shows "optimistic_loop env updater max_retries attempt s =
     (True, (env attempt s)\<lparr>data := updater (data s),
                             write_count := write_count (env attempt s) + 1\<rparr>)"
  using assms by (subst optimistic_loop.simps) (simp add: Let_def value_equal_def)

text \<open>
  C7. \<^verbatim>\<open>optimistic_update(fn)\<close> run with no concurrent mutation commits on its first
  attempt, returns true, and leaves the cell's value equal to \<open>fn(old_value)\<close>, the old
  value being the one at entry. This holds for the default of 3 retries with no other
  thread at work, and for every positive \<^verbatim>\<open>max_retries\<close> whenever the other threads
  leave the value alone during the first attempt (they may read meanwhile).
\<close>

theorem optimistic_update_commits_first_attempt:
  "(0 < max_retries \<and> data (env 0 s) = data s \<longrightarrow>
      optimistic_update env updater max_retries s =
        (True, (env 0 s)\<lparr>data := updater (data s), write_count := write_count (env 0 s) + 1\<rparr>))
   \<and> optimistic_update (\<lambda>k c. c) updater default_max_retries s =
        (True, s\<lparr>data := updater (data s), write_count := write_count s + 1\<rparr>)
   \<and> fst (optimistic_update (\<lambda>k c. c) updater default_max_retries s) = True
   \<and> data (snd (optimistic_update (\<lambda>k c. c) updater default_max_retries s)) = updater (data s)"
  by (simp add: optimistic_update_def default_max_retries_def optimistic_loop_first_attempt)

text \<open>
  At a cell holding 100, doubled, while another thread reads once during the attempt.
\<close>

theorem optimistic_update_commits_first_attempt_witness:
  "(0::int) < 3 \<and> data ((\<lambda>k c. c\<lparr>read_count := read_count c + 1\<rparr>) (0::int) (new_state (100::int) ''test_counter'' 0))
       = data (new_state (100::int) ''test_counter'' 0)
   \<and> optimistic_update (\<lambda>k c. c\<lparr>read_count := read_count c + 1\<rparr>) (\<lambda>d. d * 2) 3
        (new_state (100::int) ''test_counter'' 0)
      = (True, \<lparr>data = 200, state_name = ''test_counter'', read_count = 1, write_count = 1,
                 creation_time = 0\<rparr>)"
proof -
  have h: "(0::int) < 3 \<and> data ((\<lambda>k c. c\<lparr>read_count := read_count c + 1\<rparr>) (0::int) (new_state (100::int) ''test_counter'' 0))
       = data (new_state (100::int) ''test_counter'' 0)"
    by simp
  from optimistic_update_commits_first_attempt[of 3 "\<lambda>k c. c\<lparr>read_count := read_count c + 1\<rparr>"
      "new_state (100::int) ''test_counter'' 0" "\<lambda>d. d * 2"] h
  show ?thesis by (simp add: new_state_def)
qed

section \<open>Properties of the lock-order registry\<close>

lemma held_higher_lock_refuses:
  assumes "lock_hierarchy s a = Some la" and "lock_hierarchy s b = Some lb" and "la < lb"
    and "held_locks s tid = Some held" and "b \<in> set held"
  shows "can_acquire_safely tid a s = Some (False, s)"
  using assms by (auto simp: can_acquire_safely_def list_ex_iff intro!: bexI[of _ b])

lemma no_locks_held_passes:
  assumes "lock_hierarchy s a = Some la" and "held_locks s tid = None \<or> held_locks s tid = Some []"
  shows "can_acquire_safely tid a s = Some (True, s)"
  using assms
  by (auto simp: can_acquire_safely_def would_create_cycle_def split: option.splits)

text \<open>
  C8. In a registry in which the lock name A was registered before the lock name B, A has
  level 0 and B has level 1. A thread that holds no lock passes
  \<^verbatim>\<open>can_acquire_safely("A")\<close>, and once it has registered its acquisition of A it passes
  \<^verbatim>\<open>can_acquire_safely("B")\<close>. A thread that has registered its acquisition of B and
  then asks for A is refused by \<^verbatim>\<open>can_acquire_safely("A")\<close>. Stated for any two
  different names, any thread and any time of acquisition; the checks return and leave
  the registry as it was.
\<close>

theorem lock_order_A_then_B:
  assumes "a \<noteq> b"
  shows "(let s0 = register_lock_type b (register_lock_type a new_prevention);
              s1 = register_lock_acquisition tid a now s0;
              s2 = register_lock_acquisition tid b now s0
          in lock_hierarchy s0 a = Some 0
           \<and> lock_hierarchy s0 b = Some 1
           \<and> can_acquire_safely tid a s0 = Some (True, s0)
           \<and> can_acquire_safely tid b s1 = Some (True, s1)
           \<and> can_acquire_safely tid a s2 = Some (False, s2))"
  using assms
  by (simp add: Let_def can_acquire_safely_def would_create_cycle_def
      register_lock_acquisition_def register_lock_type_def new_prevention_def)

text \<open>At the names ``A'' and ``B'', thread 1, acquisitions at time 10.\<close>

theorem lock_order_A_then_B_witness:
  "''A'' \<noteq> ''B''
   \<and> fst (the (can_acquire_safely 1 ''A''
        (register_lock_type ''B'' (register_lock_type ''A'' new_prevention)))) = True
   \<and> fst (the (can_acquire_safely 1 ''B'' (register_lock_acquisition 1 ''A'' 10
        (register_lock_type ''B'' (register_lock_type ''A'' new_prevention))))) = True
   \<and> fst (the (can_acquire_safely 1 ''A'' (register_lock_acquisition 1 ''B'' 10
        (register_lock_type ''B'' (register_lock_type ''A'' new_prevention))))) = False"
proof -
  have h: "''A'' \<noteq> ''B''" by simp
  from lock_order_A_then_B[OF h, of 1 10] h show ?thesis
    by (simp add: Let_def)
qed

end
